theory Spec2Isabelle
  imports Main "HOL-Library.Option_ord"
begin

section \<open>Data model\<close>

text \<open>
  One row of the data frame the cleaning pipeline works on, after the cell-level
  coercions of pandas: \<open>date\<close> holds the value of \<^verbatim>\<open>pd.to_datetime(..., errors='coerce')\<close>
  as an ordinal number (\<open>None\<close> is NaT), the goal fields hold the value of
  \<^verbatim>\<open>pd.to_numeric(..., errors='coerce')\<close> (\<open>None\<close> is NaN; the scores of the data model are
  integers), the text fields hold the cell converted by \<^verbatim>\<open>astype(str)\<close>.
  Further columns of the frame (page, raw, ...) live in the extension part of the record.
\<close>

record row =
  date :: "int option"
  opponent :: string
  venue :: string
  result :: string
  goals_for :: "int option"
  goals_against :: "int option"

section \<open>Sensitivity engine (clean\_and\_sensitivity.py)\<close>

text \<open>
  \<^verbatim>\<open>a['gf_adj'] = a['goals_for'] + gf_delta\<close> and
  \<^verbatim>\<open>a['ga_adj'] = (a['goals_against'] - ga_delta).clip(lower=0)\<close>: arithmetic on NaN gives NaN,
  and \<^verbatim>\<open>clip\<close> leaves NaN alone.
\<close>

definition gf_adj :: "'a row_scheme \<Rightarrow> int \<Rightarrow> int option" where
  "gf_adj r gf_delta = map_option (\<lambda>g. g + gf_delta) (goals_for r)"

definition ga_adj :: "'a row_scheme \<Rightarrow> int \<Rightarrow> int option" where
  "ga_adj r ga_delta = map_option (\<lambda>g. max (g - ga_delta) 0) (goals_against r)"

text \<open>The comparison \<^verbatim>\<open>>\<close> of two numeric columns: false as soon as one side is NaN.\<close>

fun num_gt :: "int option \<Rightarrow> int option \<Rightarrow> bool" where
  "num_gt (Some x) (Some y) = (x > y)"
| "num_gt _ _ = False"

text \<open>\<^verbatim>\<open>mask = (a['result']!='W') & (a['gf_adj'] > a['ga_adj'])\<close>\<close>

definition flip_mask :: "'a row_scheme \<Rightarrow> int \<Rightarrow> int \<Rightarrow> bool" where
  "flip_mask r gf_delta ga_delta \<longleftrightarrow>
     result r \<noteq> ''W'' \<and> num_gt (gf_adj r gf_delta) (ga_adj r ga_delta)"

text \<open>
  \<^verbatim>\<open>a.loc[mask, ['date','opponent','goals_for','goals_against']]\<close>: the rows selected by the
  mask, projected on four columns, in the order of the frame.
\<close>

definition flipped ::
  "'a row_scheme list \<Rightarrow> int \<Rightarrow> int \<Rightarrow> (int option \<times> string \<times> int option \<times> int option) list"
where
  "flipped df gf_delta ga_delta =
     map (\<lambda>r. (date r, opponent r, goals_for r, goals_against r))
       (filter (\<lambda>r. flip_mask r gf_delta ga_delta) df)"

text \<open>\<^verbatim>\<open>len(flipped(df, gf_delta=k, ga_delta=j))\<close>, the flip count of the split \<open>(k, j)\<close>.\<close>

definition flip_count :: "'a row_scheme list \<Rightarrow> int \<Rightarrow> int \<Rightarrow> nat" where
  "flip_count df gf_delta ga_delta = length (flipped df gf_delta ga_delta)"

text \<open>
  The body of the loop of \<^verbatim>\<open>best_split\<close>: \<^verbatim>\<open>if f > best[0]: best = (f, k, d-k)\<close>.
\<close>

definition best_step ::
  "'a row_scheme list \<Rightarrow> int \<Rightarrow> int \<Rightarrow> nat \<times> int \<times> int \<Rightarrow> nat \<times> int \<times> int"
where
  "best_step df d k best =
     (let f = flip_count df k (d - k)
      in if f > fst best then (f, k, d - k) else best)"

text \<open>
  \<^verbatim>\<open>best = (0,0,0)\<close>, then \<^verbatim>\<open>for k in range(d+1)\<close>; \<open>[0..d]\<close> is the list of the integers from
  \<open>0\<close> to \<open>d\<close>, empty when \<open>d < 0\<close>, as \<^verbatim>\<open>range(d+1)\<close> is.
\<close>

definition best_split :: "'a row_scheme list \<Rightarrow> int \<Rightarrow> nat \<times> int \<times> int" where
  "best_split df d = fold (best_step df d) [0..d] (0, 0, 0)"


text \<open>
  \<^verbatim>\<open>between(1,35)\<close> on a goal column: inclusive on both sides, false on NaN.
\<close>

fun between :: "int option \<Rightarrow> int \<Rightarrow> int \<Rightarrow> bool" where
  "between (Some x) lo hi = (lo \<le> x \<and> x \<le> hi)"
| "between None lo hi = False"



text \<open>
  The invariant of the loop of \<^verbatim>\<open>best_split\<close> after the iterations \<open>0, ..., n\<close>.
\<close>

definition best_inv :: "'a row_scheme list \<Rightarrow> int \<Rightarrow> int \<Rightarrow> nat \<times> int \<times> int \<Rightarrow> bool" where
  "best_inv df d n best \<longleftrightarrow>
     (\<forall>k. 0 \<le> k \<and> k \<le> n \<longrightarrow> flip_count df k (d - k) \<le> fst best) \<and>
     (fst best = 0 \<longrightarrow> best = (0, 0, 0)) \<and>
     (0 < fst best \<longrightarrow>
        0 \<le> fst (snd best) \<and> fst (snd best) \<le> n \<and> snd (snd best) = d - fst (snd best) \<and>
        flip_count df (fst (snd best)) (d - fst (snd best)) = fst best \<and>
        (\<forall>k. 0 \<le> k \<and> k < fst (snd best) \<longrightarrow> flip_count df k (d - k) < fst best))"

section \<open>Strings\<close>

text \<open>
  A \<open>char\<close> is a code point below 256. \<open>is_space\<close> is Python's \<^verbatim>\<open>str.isspace\<close> and the class
  \<^verbatim>\<open>\s\<close> of \<^verbatim>\<open>re\<close> on these code points, \<open>is_digit\<close> is the class \<^verbatim>\<open>\d\<close>, \<open>is_alpha\<close> is the
  class \<^verbatim>\<open>[A-Za-z]\<close>. The case conversions are those of the ASCII letters; the model of
  \<^verbatim>\<open>upper\<close>, \<^verbatim>\<open>lower\<close> and \<^verbatim>\<open>title\<close> is exact on ASCII text.
\<close>

definition is_space :: "char \<Rightarrow> bool" where
  "is_space c \<longleftrightarrow> (of_char c :: nat) \<in> {9, 10, 11, 12, 13, 28, 29, 30, 31, 32, 133, 160}"

definition is_digit :: "char \<Rightarrow> bool" where
  "is_digit c \<longleftrightarrow> 48 \<le> (of_char c :: nat) \<and> (of_char c :: nat) \<le> 57"

definition is_upper :: "char \<Rightarrow> bool" where
  "is_upper c \<longleftrightarrow> 65 \<le> (of_char c :: nat) \<and> (of_char c :: nat) \<le> 90"

definition is_lower :: "char \<Rightarrow> bool" where
  "is_lower c \<longleftrightarrow> 97 \<le> (of_char c :: nat) \<and> (of_char c :: nat) \<le> 122"

definition is_alpha :: "char \<Rightarrow> bool" where
  "is_alpha c \<longleftrightarrow> is_upper c \<or> is_lower c"

definition to_upper :: "char \<Rightarrow> char" where
  "to_upper c = (if is_lower c then char_of ((of_char c :: nat) - 32) else c)"

definition to_lower :: "char \<Rightarrow> char" where
  "to_lower c = (if is_upper c then char_of ((of_char c :: nat) + 32) else c)"

text \<open>\<^verbatim>\<open>s.upper()\<close> and \<^verbatim>\<open>s.lower()\<close>\<close>

definition str_upper :: "string \<Rightarrow> string" where
  "str_upper s = map to_upper s"

definition str_lower :: "string \<Rightarrow> string" where
  "str_lower s = map to_lower s"

text \<open>
  \<^verbatim>\<open>s.title()\<close>: a letter that follows a letter is lower-cased, any other letter is
  upper-cased; the flag tells whether the previous character was a letter.
\<close>

fun title_from :: "bool \<Rightarrow> string \<Rightarrow> string" where
  "title_from prev [] = []"
| "title_from prev (c # cs) =
     (if is_alpha c then (if prev then to_lower c else to_upper c) # title_from True cs
      else c # title_from False cs)"

definition str_title :: "string \<Rightarrow> string" where
  "str_title s = title_from False s"

text \<open>\<^verbatim>\<open>s.strip()\<close>, and \<^verbatim>\<open>s.lstrip(chars)\<close> for a set of characters.\<close>

definition str_strip :: "string \<Rightarrow> string" where
  "str_strip s = rev (dropWhile is_space (rev (dropWhile is_space s)))"

definition str_lstrip :: "string \<Rightarrow> string \<Rightarrow> string" where
  "str_lstrip chars s = dropWhile (\<lambda>c. c \<in> set chars) s"

text \<open>
  \<^verbatim>\<open>re.sub(r'\s+', ' ', s)\<close>: every run of white space becomes one space; the flag tells
  whether the previous character was white space.
\<close>

fun collapse_from :: "bool \<Rightarrow> string \<Rightarrow> string" where
  "collapse_from prev [] = []"
| "collapse_from prev (c # cs) =
     (if is_space c then (if prev then collapse_from True cs else CHR '' '' # collapse_from True cs)
      else c # collapse_from False cs)"

definition collapse_ws :: "string \<Rightarrow> string" where
  "collapse_ws s = collapse_from False s"

text \<open>\<^verbatim>\<open>str.contains(r'[A-Za-z]', regex=True)\<close>\<close>

definition contains_letter :: "string \<Rightarrow> bool" where
  "contains_letter s = list_ex is_alpha s"

section \<open>Validator and deduplicator (clean\_and\_sensitivity.py)\<close>

text \<open>
  A data frame: its column labels and its rows. A field of a row is meaningful when its
  label is among the columns. The labels of a frame read from a CSV file are distinct.
\<close>

record 'a frame =
  columns :: "string list"
  rows :: "'a row_scheme list"

text \<open>The exceptions the cleaning can end with.\<close>

datatype error = KeyError string | TypeError | AttributeError

text \<open>
  \<^verbatim>\<open>normalize_columns\<close>: the labels gf, ga, wl and team are renamed. A row field holds the
  cell of the column that carries its name after the renaming.
\<close>

definition rename_column :: "string \<Rightarrow> string" where
  "rename_column c =
     (if c = ''gf'' then ''goals_for''
      else if c = ''ga'' then ''goals_against''
      else if c = ''wl'' then ''result''
      else if c = ''team'' then ''opponent''
      else c)"

definition normalize_columns :: "'a frame \<Rightarrow> 'a frame" where
  "normalize_columns df = df\<lparr>columns := map rename_column (columns df)\<rparr>"

text \<open>
  \<^verbatim>\<open>coerce_types\<close>, on one row. The conversions \<^verbatim>\<open>pd.to_datetime\<close> and \<^verbatim>\<open>pd.to_numeric\<close> are
  already in the values of \<open>date\<close>, \<open>goals_for\<close> and \<open>goals_against\<close> (they leave a
  converted column as it is). The result is upper-cased, then stripped; the white space of
  the opponent is collapsed, then stripped; the venue is title-cased.
\<close>

definition coerce_row :: "string list \<Rightarrow> 'a row_scheme \<Rightarrow> 'a row_scheme" where
  "coerce_row cols r =
     r\<lparr>result := (if ''result'' \<in> set cols then str_strip (str_upper (result r)) else result r),
       opponent :=
         (if ''opponent'' \<in> set cols then str_strip (collapse_ws (opponent r)) else opponent r),
       venue := (if ''venue'' \<in> set cols then str_title (venue r) else venue r)\<rparr>"

text \<open>
  \<^verbatim>\<open>coerce_types\<close>, on the frame. When the renaming has produced a label twice, \<^verbatim>\<open>df[c]\<close> is
  a frame and not a column: \<^verbatim>\<open>pd.to_numeric\<close> raises TypeError on it, and it has no
  \<^verbatim>\<open>.str\<close> accessor (AttributeError).
\<close>

definition coerce_types :: "'a frame \<Rightarrow> error + 'a frame" where
  "coerce_types df =
     (let cols = columns df in
      if 1 < count_list cols ''goals_for'' \<or> 1 < count_list cols ''goals_against''
      then Inl TypeError
      else if 1 < count_list cols ''result'' \<or> 1 < count_list cols ''opponent''
      then Inl AttributeError
      else Inr (df\<lparr>rows := map (coerce_row cols) (rows df)\<rparr>))"

text \<open>
  \<^verbatim>\<open>re.match(r'^(at|vs\.?)\s+(.*)$', opp, flags=re.I)\<close>, the two groups of a match.
  \<open>rest_of_line\<close> is \<^verbatim>\<open>(.*)$\<close>: the dot stops at a newline, and \<^verbatim>\<open>$\<close> matches at the end
  of the text or before a newline that ends it. \<open>after_prefix\<close> is \<^verbatim>\<open>\s+(.*)$\<close>: the white
  space is taken greedily, and a shorter run cannot match where the longest does not. The
  alternatives are tried in the order of the pattern: at, vs with the dot, vs.
\<close>

definition rest_of_line :: "string \<Rightarrow> string option" where
  "rest_of_line s =
     (let g = takeWhile (\<lambda>c. c \<noteq> CHR 0x0A) s; r = dropWhile (\<lambda>c. c \<noteq> CHR 0x0A) s
      in if r = [] \<or> r = [CHR 0x0A] then Some g else None)"

definition after_prefix :: "string \<Rightarrow> string \<Rightarrow> (string \<times> string) option" where
  "after_prefix g1 s =
     (if takeWhile is_space s = [] then None
      else map_option (\<lambda>g2. (g1, g2)) (rest_of_line (dropWhile is_space s)))"

definition try_prefix :: "string \<Rightarrow> string \<Rightarrow> (string \<times> string) option" where
  "try_prefix lit s =
     (if str_lower (take (length lit) s) = lit
      then after_prefix (take (length lit) s) (drop (length lit) s) else None)"

definition match_venue_prefix :: "string \<Rightarrow> (string \<times> string) option" where
  "match_venue_prefix opp =
     (case try_prefix ''at'' opp of
        Some m \<Rightarrow> Some m
      | None \<Rightarrow>
          (case try_prefix ''vs.'' opp of
             Some m \<Rightarrow> Some m
           | None \<Rightarrow> try_prefix ''vs'' opp))"

text \<open>
  \<^verbatim>\<open>infer_venue_and_clean_opponent\<close>; \<^verbatim>\<open>row.get('venue','')\<close> is the empty string on a frame
  without a venue column.
\<close>

definition infer_venue_and_clean_opponent :: "string list \<Rightarrow> 'a row_scheme \<Rightarrow> 'a row_scheme" where
  "infer_venue_and_clean_opponent cols r =
     (let opp = str_strip (str_lstrip ''= '' (opponent r));
          ven = str_strip (if ''venue'' \<in> set cols then venue r else []);
          m = match_venue_prefix opp;
          ven = (case m of
                   Some (g1, g2) \<Rightarrow>
                     (if ven \<noteq> [] then ven
                      else if take 2 (str_lower g1) = ''at'' then ''Away'' else ''Home'')
                 | None \<Rightarrow> ven);
          opp = (case m of Some (g1, g2) \<Rightarrow> g2 | None \<Rightarrow> opp)
      in r\<lparr>opponent := str_title opp, venue := (if ven \<noteq> [] then str_title ven else ven)\<rparr>)"

text \<open>
  \<^verbatim>\<open>df.apply(f, axis=1)\<close>: an empty frame is returned as it is; on the rows of any other
  frame the assignment \<^verbatim>\<open>row['venue'] = ...\<close> adds the venue column when it is missing.
\<close>

definition apply_rows :: "(string list \<Rightarrow> 'a row_scheme \<Rightarrow> 'a row_scheme) \<Rightarrow> 'a frame \<Rightarrow> 'a frame" where
  "apply_rows f df =
     (if rows df = [] then df
      else \<lparr>columns = (if ''venue'' \<in> set (columns df) then columns df
                       else columns df @ [''venue'']),
            rows = map (f (columns df)) (rows df)\<rparr>)"

text \<open>
  The identity of a record for the deduplication, the \<^verbatim>\<open>subset\<close> of \<^verbatim>\<open>drop_duplicates\<close>.
\<close>

definition dedup_key ::
  "'a row_scheme \<Rightarrow> int option \<times> string \<times> int option \<times> int option \<times> string" where
  "dedup_key r = (date r, opponent r, goals_for r, goals_against r, result r)"

text \<open>
  \<^verbatim>\<open>drop_duplicates\<close> with the default \<^verbatim>\<open>keep='first'\<close>: a row stays when no earlier row has
  its key; \<open>seen\<close> are the keys of the earlier rows.
\<close>

fun drop_duplicates_from :: "('r \<Rightarrow> 'k) \<Rightarrow> 'k list \<Rightarrow> 'r list \<Rightarrow> 'r list" where
  "drop_duplicates_from key seen [] = []"
| "drop_duplicates_from key seen (r # rs) =
     (if key r \<in> set seen then drop_duplicates_from key seen rs
      else r # drop_duplicates_from key (key r # seen) rs)"

definition drop_duplicates :: "('r \<Rightarrow> 'k) \<Rightarrow> 'r list \<Rightarrow> 'r list" where
  "drop_duplicates key rs = drop_duplicates_from key [] rs"

text \<open>The comparisons of the date column with a bound of the window; false on NaT.\<close>

fun date_ge :: "int option \<Rightarrow> int \<Rightarrow> bool" where
  "date_ge (Some d) b = (b \<le> d)"
| "date_ge None b = False"

fun date_le :: "int option \<Rightarrow> int \<Rightarrow> bool" where
  "date_le (Some d) b = (d \<le> b)"
| "date_le None b = False"

text \<open>
  The row filters of \<^verbatim>\<open>clean_filter\<close> between \<^verbatim>\<open>dropna\<close> and \<^verbatim>\<open>apply\<close>, on one row. The
  bounds \<open>start\<close> and \<open>endd\<close> are the values of \<^verbatim>\<open>pd.Timestamp(start)\<close> and
  \<^verbatim>\<open>pd.Timestamp(end)\<close>; \<open>None\<close> is a bound that is not given (\<^verbatim>\<open>if start:\<close> is false).
\<close>

definition in_window :: "int option \<Rightarrow> int option \<Rightarrow> 'a row_scheme \<Rightarrow> bool" where
  "in_window start endd r \<longleftrightarrow>
     date r \<noteq> None \<and>
     (case start of Some b \<Rightarrow> date_ge (date r) b | None \<Rightarrow> True) \<and>
     (case endd of Some b \<Rightarrow> date_le (date r) b | None \<Rightarrow> True)"

definition is_game :: "string list \<Rightarrow> 'a row_scheme \<Rightarrow> bool" where
  "is_game cols r \<longleftrightarrow> (if ''result'' \<in> set cols then result r \<in> set [''W'', ''L''] else True)"

definition goals_in_range :: "'a row_scheme \<Rightarrow> bool" where
  "goals_in_range r \<longleftrightarrow> between (goals_for r) 1 35 \<and> between (goals_against r) 1 35"

text \<open>
  \<^verbatim>\<open>clean_filter\<close>. A missing column ends it with the KeyError of the first statement
  that reads the column: \<^verbatim>\<open>dropna(subset=['date'])\<close>, \<^verbatim>\<open>df['goals_for']\<close>,
  \<^verbatim>\<open>df['goals_against']\<close>, \<^verbatim>\<open>df['opponent']\<close>, and \<^verbatim>\<open>drop_duplicates\<close> for the result (which
  returns an empty frame before it looks at its subset). \<^verbatim>\<open>sort_values('date')\<close> is a sort
  on the date; rows of equal date keep their order here.
\<close>

definition clean_filter :: "'a frame \<Rightarrow> int option \<Rightarrow> int option \<Rightarrow> error + 'a frame" where
  "clean_filter df0 start endd =
     (case coerce_types (normalize_columns df0) of
        Inl e \<Rightarrow> Inl e
      | Inr df \<Rightarrow>
          (let cols = columns df in
           if ''date'' \<notin> set cols then Inl (KeyError ''date'')
           else
             let rs = filter (in_window start endd) (rows df);
                 rs = filter (is_game cols) rs
             in if ''goals_for'' \<notin> set cols then Inl (KeyError ''goals_for'')
                else if ''goals_against'' \<notin> set cols then Inl (KeyError ''goals_against'')
                else
                  let rs = filter goals_in_range rs
                  in if ''opponent'' \<notin> set cols then Inl (KeyError ''opponent'')
                     else
                       let rs = filter (\<lambda>r. contains_letter (opponent r)) rs;
                           df = apply_rows infer_venue_and_clean_opponent (df\<lparr>rows := rs\<rparr>)
                       in if rows df = [] then Inr df
                          else if ''result'' \<notin> set cols then Inl (KeyError ''result'')
                          else Inr (df\<lparr>rows :=
                                 sort_key date (drop_duplicates dedup_key (rows df))\<rparr>)))"

text \<open>
  The row filters of \<^verbatim>\<open>clean_filter\<close> on a row after \<^verbatim>\<open>coerce_types\<close>, and the cleaning of one
  row of the input: \<^verbatim>\<open>coerce_types\<close>, then \<^verbatim>\<open>infer_venue_and_clean_opponent\<close>.
\<close>

definition passes_filters :: "string list \<Rightarrow> int option \<Rightarrow> int option \<Rightarrow> 'a row_scheme \<Rightarrow> bool" where
  "passes_filters cols start endd r \<longleftrightarrow>
     in_window start endd r \<and> is_game cols r \<and> goals_in_range r \<and> contains_letter (opponent r)"

definition valid_row :: "string list \<Rightarrow> int option \<Rightarrow> int option \<Rightarrow> 'a row_scheme \<Rightarrow> bool" where
  "valid_row cols start endd r = passes_filters cols start endd (coerce_row cols r)"

definition cleaned_row :: "string list \<Rightarrow> 'a row_scheme \<Rightarrow> 'a row_scheme" where
  "cleaned_row cols r = infer_venue_and_clean_opponent cols (coerce_row cols r)"


text \<open>
  The rows of the result of \<^verbatim>\<open>clean_filter\<close> in terms of the rows of its input: the valid
  rows, cleaned, without duplicates, sorted. \<open>with_venue\<close> are the columns after
  \<^verbatim>\<open>apply\<close> on a frame that is not empty, and \<open>opponent_part\<close> is the opponent after the
  prefix: the second group of a match, the whole text without one.
\<close>

definition cleaned_rows ::
  "string list \<Rightarrow> int option \<Rightarrow> int option \<Rightarrow> 'a row_scheme list \<Rightarrow> 'a row_scheme list" where
  "cleaned_rows cols start endd rs =
     sort_key date (drop_duplicates dedup_key
       (map (cleaned_row cols) (filter (valid_row cols start endd) rs)))"

definition with_venue :: "string list \<Rightarrow> string list" where
  "with_venue cols = (if ''venue'' \<in> set cols then cols else cols @ [''venue''])"


section \<open>Extraction pipeline (ocr\_and\_parse.py)\<close>

text \<open>
  A candidate record of \<^verbatim>\<open>parse_schedule_from_text\<close>: the fields of a row, the page, the
  unparsed date and the matched text. The scores of a candidate are integers
  (\<^verbatim>\<open>int(m_sc.group(1))\<close>); its \<open>date\<close> is set by \<^verbatim>\<open>main\<close>.
\<close>

record cand = row +
  page :: nat
  date_raw :: string
  raw :: string

text \<open>
  The eight columns of \<^verbatim>\<open>pd.DataFrame(rows)\<close>, on which the \<^verbatim>\<open>drop_duplicates()\<close> that ends
  \<^verbatim>\<open>parse_schedule_from_text\<close> compares the candidates.
\<close>

definition cand_fields ::
  "cand \<Rightarrow> nat \<times> string \<times> string \<times> string \<times> string \<times> int option \<times> int option \<times> string" where
  "cand_fields c =
     (page c, date_raw c, opponent c, venue c, result c, goals_for c, goals_against c, raw c)"

text \<open>
  \<^verbatim>\<open>main\<close> of ocr\_and\_parse.py from the frame \<open>df\<close> of the candidates on: exit status 3
  when it is empty; \<^verbatim>\<open>pd.to_datetime\<close> on the unparsed date (a parameter: the parser of
  pandas); \<^verbatim>\<open>dropna\<close> and the date window; the range of the goals; the results W, L and
  T; the sort on the date. The columns written are those of the record without
  \<open>date_raw\<close>.
\<close>

datatype exit = SystemExit nat

definition ocr_and_parse_main ::
  "(string \<Rightarrow> int option) \<Rightarrow> int option \<Rightarrow> int option \<Rightarrow> cand list \<Rightarrow> exit + cand list" where
  "ocr_and_parse_main to_datetime start endd df =
     (if df = [] then Inl (SystemExit 3)
      else
        let df = map (\<lambda>c. c\<lparr>date := to_datetime (date_raw c)\<rparr>) df;
            df = filter (in_window start endd) df;
            df = filter goals_in_range df;
            df = filter (\<lambda>c. result c \<in> set [''W'', ''L'', ''T'']) df
        in Inr (sort_key date df))"

section \<open>Score pattern (ocr\_and\_parse.py)\<close>

text \<open>
  The alternatives of \<^verbatim>\<open>\d{1,2}\<close> at the head of a text, in the order the greedy quantifier
  tries them: two digits, then one digit. Each alternative is the matched text and the rest.
\<close>

fun digits12 :: "string \<Rightarrow> (string \<times> string) list" where
  "digits12 (a # b # r) =
     (if is_digit a \<and> is_digit b then [([a, b], r)] else []) @
     (if is_digit a then [([a], b # r)] else [])"
| "digits12 [a] = (if is_digit a then [([a], [])] else [])"
| "digits12 [] = []"

text \<open>
  The alternatives of \<^verbatim>\<open>\s*\<close>: the rests of the text after the longest run of white space
  first, then after each shorter run, down to the text itself.
\<close>

fun spaces_star :: "string \<Rightarrow> string list" where
  "spaces_star [] = [[]]"
| "spaces_star (c # r) = (if is_space c then spaces_star r @ [c # r] else [c # r])"

text \<open>A literal character.\<close>

fun literal :: "char \<Rightarrow> string \<Rightarrow> string list" where
  "literal c [] = []"
| "literal c (x # r) = (if x = c then [r] else [])"

text \<open>
  The body \<^verbatim>\<open>\s*[-/]\d\<close> of the negative lookahead: some alternative of \<^verbatim>\<open>\s*\<close> is followed
  by a hyphen or a slash and a digit.
\<close>

fun hyphen_or_slash_digit :: "string \<Rightarrow> bool" where
  "hyphen_or_slash_digit (x # d # r) = ((x = CHR ''-'' \<or> x = CHR ''/'') \<and> is_digit d)"
| "hyphen_or_slash_digit _ = False"

definition lookahead_body :: "string \<Rightarrow> bool" where
  "lookahead_body s = list_ex hyphen_or_slash_digit (spaces_star s)"

text \<open>
  \<^verbatim>\<open>(\d{1,2})\s*-\s*(\d{1,2})(?!\s*[-/]\d)\<close> at the head of a text: all the ways to match, in
  the order of the backtracking; each is the two groups and the rest of the text.
\<close>

definition score_at :: "string \<Rightarrow> (string \<times> string \<times> string) list" where
  "score_at s =
     concat (map (\<lambda>(g1, r1).
       concat (map (\<lambda>r2.
         concat (map (\<lambda>r3.
           concat (map (\<lambda>r4.
             concat (map (\<lambda>(g2, r5).
               if lookahead_body r5 then [] else [(g1, g2, r5)])
             (digits12 r4)))
           (spaces_star r3)))
         (literal CHR ''-'' r2)))
       (spaces_star r1)))
     (digits12 s))"

text \<open>A match of the score pattern: its span in the text and its two groups.\<close>

record score_match =
  m_start :: nat
  m_end :: nat
  group1 :: string
  group2 :: string

text \<open>
  \<^verbatim>\<open>RX_SCORE.search(text)\<close>: the positions are tried from the left; \<open>prev\<close> is the character
  before the position, for the lookbehind \<^verbatim>\<open>(?<!\d)\<close>, and \<open>pos\<close> the position. The first
  way to match at the first position that has one is the match.
\<close>

fun rx_score_from :: "char option \<Rightarrow> nat \<Rightarrow> string \<Rightarrow> score_match option" where
  "rx_score_from prev pos [] = None"
| "rx_score_from prev pos (c # r) =
     (case (if (case prev of Some p \<Rightarrow> is_digit p | None \<Rightarrow> False) then [] else score_at (c # r)) of
        (g1, g2, rest) # _ \<Rightarrow>
          Some \<lparr>m_start = pos, m_end = pos + (length (c # r) - length rest),
                group1 = g1, group2 = g2\<rparr>
      | [] \<Rightarrow> rx_score_from (Some c) (Suc pos) r)"

definition rx_score_search :: "string \<Rightarrow> score_match option" where
  "rx_score_search text = rx_score_from None 0 text"

text \<open>
  In the words of the specification: the text after a match continues with optional white
  space, a hyphen or a slash, and a digit.
\<close>

definition followed_by_continuation :: "string \<Rightarrow> bool" where
  "followed_by_continuation rest = hyphen_or_slash_digit (dropWhile is_space rest)"

text \<open>The test of the lookbehind \<^verbatim>\<open>(?<!\d)\<close> on the character before a position.\<close>

definition prev_is_digit :: "char option \<Rightarrow> bool" where
  "prev_is_digit prev = (case prev of Some p \<Rightarrow> is_digit p | None \<Rightarrow> False)"

section \<open>Text normalizer (ocr\_and\_parse.py)\<close>

text \<open>
  The text of a page is a Python string, a sequence of Unicode code points. \<open>cp_is_space\<close>
  is \<^verbatim>\<open>str.isspace\<close>, which is also the class \<^verbatim>\<open>\s\<close> of \<^verbatim>\<open>re\<close>.
\<close>

type_synonym ustring = "nat list"

definition cp_is_space :: "nat \<Rightarrow> bool" where
  "cp_is_space c \<longleftrightarrow>
     (9 \<le> c \<and> c \<le> 13) \<or> (28 \<le> c \<and> c \<le> 32) \<or> c = 0x85 \<or> c = 0xA0 \<or> c = 0x1680 \<or>
     (0x2000 \<le> c \<and> c \<le> 0x200A) \<or> c = 0x2028 \<or> c = 0x2029 \<or> c = 0x202F \<or>
     c = 0x205F \<or> c = 0x3000"

text \<open>\<^verbatim>\<open>s.replace(a, b)\<close> for two strings of one code point each.\<close>

definition replace_cp :: "nat \<Rightarrow> nat \<Rightarrow> ustring \<Rightarrow> ustring" where
  "replace_cp a b s = map (\<lambda>c. if c = a then b else c) s"

text \<open>\<^verbatim>\<open>re.sub(r"\s+", " ", s)\<close> and \<^verbatim>\<open>s.strip()\<close> on code points.\<close>

fun cp_collapse_from :: "bool \<Rightarrow> ustring \<Rightarrow> ustring" where
  "cp_collapse_from prev [] = []"
| "cp_collapse_from prev (c # cs) =
     (if cp_is_space c then (if prev then cp_collapse_from True cs else 0x20 # cp_collapse_from True cs)
      else c # cp_collapse_from False cs)"

definition cp_strip :: "ustring \<Rightarrow> ustring" where
  "cp_strip s = rev (dropWhile cp_is_space (rev (dropWhile cp_is_space s)))"

text \<open>
  \<^verbatim>\<open>clean\<close>. The input is \<open>None\<close> for \<^verbatim>\<open>None\<close>; \<^verbatim>\<open>(s or "")\<close> is then the empty string. The
  no-break space U+00A0, the figure space U+2007 and the thin space U+2009 become a space;
  the en dash U+2013 and the em dash U+2014 become a hyphen (the source replaces each of
  them twice, as a literal and as an escape). \<open>nfkc\<close> is
  \<^verbatim>\<open>unicodedata.normalize("NFKC", s)\<close>, a parameter: the normalization tables of Unicode.
\<close>

definition clean :: "(ustring \<Rightarrow> ustring) \<Rightarrow> ustring option \<Rightarrow> ustring" where
  "clean nfkc s =
     (let s = (case s of None \<Rightarrow> [] | Some t \<Rightarrow> t);
          s = replace_cp 0x2009 0x20 (replace_cp 0x2007 0x20 (replace_cp 0xA0 0x20 s));
          s = replace_cp 0x2014 0x2D (replace_cp 0x2013 0x2D
                (replace_cp 0x2014 0x2D (replace_cp 0x2013 0x2D s)));
          s = nfkc s
      in cp_strip (cp_collapse_from False s))"

text \<open>
  The text before the normalization, and the shape of a normalized text: no white space
  at its ends, and no white space inside it but single spaces.
\<close>

definition before_nfkc :: "ustring \<Rightarrow> ustring" where
  "before_nfkc s =
     replace_cp 0x2014 0x2D (replace_cp 0x2013 0x2D
       (replace_cp 0x2014 0x2D (replace_cp 0x2013 0x2D
         (replace_cp 0x2009 0x20 (replace_cp 0x2007 0x20 (replace_cp 0xA0 0x20 s))))))"

fun single_spaced :: "bool \<Rightarrow> ustring \<Rightarrow> bool" where
  "single_spaced prev [] = True"
| "single_spaced prev (c # cs) =
     (if cp_is_space c then c = 0x20 \<and> \<not> prev \<and> single_spaced True cs
      else single_spaced False cs)"

definition stripped :: "ustring \<Rightarrow> bool" where
  "stripped s \<longleftrightarrow> (s = [] \<or> (\<not> cp_is_space (hd s) \<and> \<not> cp_is_space (last s)))"

text \<open>
  The shape of a text after \<^verbatim>\<open>re.sub(r'\s+', ' ', s)\<close> and \<^verbatim>\<open>strip()\<close>: every white space is
  a single space (the flag tells whether the previous character was white space), and
  there is none at the ends.
\<close>

fun ws_ok :: "bool \<Rightarrow> string \<Rightarrow> bool" where
  "ws_ok prev [] = True"
| "ws_ok prev (c # cs) =
     (if is_space c then c = CHR '' '' \<and> \<not> prev \<and> ws_ok True cs else ws_ok False cs)"



section \<open>Example records\<close>

text \<open>
  Records of a cleaned record set: the loss 2-3 at the Hawks of Scenario A and B, a win,
  and a loss whose score contradicts its label. Dates are written as the number yyyymmdd.
\<close>

definition loss23 :: row where
  "loss23 = \<lparr>date = Some 20241001, opponent = ''Hawks'', venue = ''Away'', result = ''L'',
             goals_for = Some 2, goals_against = Some 3\<rparr>"

definition win31 :: row where
  "win31 = \<lparr>date = Some 20241005, opponent = ''Bears'', venue = ''Home'', result = ''W'',
            goals_for = Some 3, goals_against = Some 1\<rparr>"


text \<open>The columns of a frame for the cleaning, and a row of such a frame.\<close>

definition five_columns :: "string list" where
  "five_columns = [''date'', ''opponent'', ''result'', ''goals_for'', ''goals_against'']"

definition game :: "int \<Rightarrow> string \<Rightarrow> string \<Rightarrow> int \<Rightarrow> int \<Rightarrow> row" where
  "game d opp res gf ga =
     \<lparr>date = Some d, opponent = opp, venue = [], result = res,
      goals_for = Some gf, goals_against = Some ga\<rparr>"

text \<open>
  The candidates of a schedule line and of the same line joined with the next one: the
  same date, opponent, scores and result, another matched text.
\<close>

definition cand_line :: cand where
  "cand_line =
     \<lparr>date = None, opponent = ''Hawks'', venue = [], result = ''L'',
      goals_for = Some 2, goals_against = Some 3,
      page = 1, date_raw = ''10/01/2024'', raw = ''10/01/2024 Hawks L 2-3''\<rparr>"


definition cand_zero :: cand where
  "cand_zero =
     \<lparr>date = None, opponent = ''Owls'', venue = [], result = ''W'',
      goals_for = Some 3, goals_against = Some 0,
      page = 1, date_raw = ''10/15/2024'', raw = ''10/15/2024 Owls W 3-0''\<rparr>"

text \<open>The dates that the examples need from \<^verbatim>\<open>pd.to_datetime\<close>.\<close>

definition to_datetime_2024 :: "string \<Rightarrow> int option" where
  "to_datetime_2024 s =
     (if s = ''10/01/2024'' then Some 20241001
      else if s = ''10/08/2024'' then Some 20241008
      else if s = ''10/15/2024'' then Some 20241015 else None)"


definition hawks_cleaned :: row where
  "hawks_cleaned = \<lparr>date = Some 20241001, opponent = ''Hawks'', venue = ''Away'', result = ''L'',
                    goals_for = Some 2, goals_against = Some 3\<rparr>"

definition mixed_scores :: "unit frame" where
  "mixed_scores = \<lparr>columns = five_columns,
      rows = [game 20241102 ''Owls'' ''W'' 36 2, game 20241001 ''at Hawks'' ''L'' 2 3,
              game 20241109 ''Bears'' ''W'' 3 0]\<rparr>"



text \<open>
  A text with a no-break space, a tab, an en dash, an em dash and a newline around the
  letters A and B.
\<close>

definition sample_text :: ustring where
  "sample_text = [0x20, 0x41, 0xA0, 0x09, 0x2013, 0x42, 0x2014, 0x0A]"




section \<open>Properties of the sensitivity engine\<close>

lemma upto_int_Suc: "[0..int (Suc n)] = [0..int n] @ [int n + 1]"
  using upto_rec2 [of 0 "int n + 1"] by (simp add: add.commute)

lemma best_inv_init: "best_inv df d (- 1) (0, 0, 0)"
  by (simp add: best_inv_def)

lemma best_inv_step:
  assumes inv: "best_inv df d (m - 1) best" and m: "0 \<le> m"
  shows "best_inv df d m (best_step df d m best)"
proof (cases "fst best < flip_count df m (d - m)")
  case True
  then have res: "best_step df d m best = (flip_count df m (d - m), m, d - m)"
    by (simp add: best_step_def)
  have ub: "flip_count df k (d - k) \<le> flip_count df m (d - m)" if "0 \<le> k" "k \<le> m" for k
  proof (cases "k = m")
    case False
    with that have "k \<le> m - 1" by simp
    with inv that(1) have "flip_count df k (d - k) \<le> fst best"
      unfolding best_inv_def by blast
    with True show ?thesis by simp
  qed simp
  have least: "flip_count df k (d - k) < flip_count df m (d - m)" if "0 \<le> k" "k < m" for k
  proof -
    from that have "k \<le> m - 1" by simp
    with inv that(1) have "flip_count df k (d - k) \<le> fst best"
      unfolding best_inv_def by blast
    with True show ?thesis by simp
  qed
  from True have "0 < flip_count df m (d - m)" by simp
  with ub least m show ?thesis
    unfolding res best_inv_def by simp
next
  case False
  then have res: "best_step df d m best = best"
    by (simp add: best_step_def)
  have ub: "flip_count df k (d - k) \<le> fst best" if "0 \<le> k" "k \<le> m" for k
  proof (cases "k = m")
    case F: False
    with that have "k \<le> m - 1" by simp
    with inv that(1) show ?thesis
      unfolding best_inv_def by blast
  next
    case True
    with False show ?thesis by simp
  qed
  from inv have z: "fst best = 0 \<longrightarrow> best = (0, 0, 0)"
    unfolding best_inv_def by blast
  from inv have p: "0 < fst best \<longrightarrow>
        0 \<le> fst (snd best) \<and> fst (snd best) \<le> m - 1 \<and> snd (snd best) = d - fst (snd best) \<and>
        flip_count df (fst (snd best)) (d - fst (snd best)) = fst best \<and>
        (\<forall>k. 0 \<le> k \<and> k < fst (snd best) \<longrightarrow> flip_count df k (d - k) < fst best)"
    unfolding best_inv_def by blast
  from p have p': "0 < fst best \<longrightarrow> fst (snd best) \<le> m" by linarith
  show ?thesis
    unfolding res best_inv_def using ub z p p' by blast
qed

lemma best_fold_inv: "best_inv df d (int n) (fold (best_step df d) [0..int n] (0, 0, 0))"
proof (induction n)
  case 0
  have "[0..int 0] = [0]" by (simp add: upto.simps)
  moreover have "best_inv df d (0 - 1) (0, 0, 0)"
    using best_inv_init [of df d] by simp
  then have "best_inv df d 0 (best_step df d 0 (0, 0, 0))"
    by (rule best_inv_step) simp
  ultimately show ?case by simp
next
  case (Suc n)
  have "best_inv df d (int n + 1) (best_step df d (int n + 1) (fold (best_step df d) [0..int n] (0, 0, 0)))"
  proof (rule best_inv_step)
    show "best_inv df d (int n + 1 - 1) (fold (best_step df d) [0..int n] (0, 0, 0))"
      using Suc by simp
  qed simp
  then have "best_inv df d (int n + 1) (fold (best_step df d) ([0..int n] @ [int n + 1]) (0, 0, 0))"
    by simp
  then show ?case
    unfolding upto_int_Suc by (simp add: add.commute)
qed

lemma best_split_inv: "0 \<le> d \<Longrightarrow> best_inv df d d (best_split df d)"
  using best_fold_inv [of df d "nat d"] by (simp add: best_split_def)







text \<open>
  Claim C1, as the code has it. For a swing magnitude \<open>d \<ge> 1\<close> the flip count returned by
  \<open>best_split\<close> is at least \<open>flip_count k (d - k)\<close> for every \<open>k\<close> in \<open>[0, d]\<close>. When some
  split flips at least one record, the result is the maximum of the flip counts over
  \<open>[0, d]\<close> together with the split \<open>(k, d - k)\<close> of the smallest \<open>k\<close> attaining it, and the
  returned deltas sum to \<open>d\<close>. When no split flips any record, the result is the initial
  value \<open>(0, 0, 0)\<close>.
\<close>

theorem best_split_argmax:
  assumes "1 \<le> d"
  shows "(\<forall>k\<in>{0..d}. flip_count df k (d - k) \<le> fst (best_split df d)) \<and>
         (if \<exists>k\<in>{0..d}. 0 < flip_count df k (d - k)
          then fst (snd (best_split df d)) \<in> {0..d} \<and>
               fst (snd (best_split df d)) + snd (snd (best_split df d)) = d \<and>
               fst (best_split df d) =
                 flip_count df (fst (snd (best_split df d))) (snd (snd (best_split df d))) \<and>
               fst (best_split df d) = Max ((\<lambda>k. flip_count df k (d - k)) ` {0..d}) \<and>
               (\<forall>k\<in>{0..d}. flip_count df k (d - k) = fst (best_split df d)
                    \<longrightarrow> fst (snd (best_split df d)) \<le> k)
          else best_split df d = (0, 0, 0))"
proof -
  obtain f a b where bs: "best_split df d = (f, a, b)"
    by (cases "best_split df d") auto
  from assms have "best_inv df d d (best_split df d)"
    by (intro best_split_inv) simp
  then have ub: "\<And>k. 0 \<le> k \<Longrightarrow> k \<le> d \<Longrightarrow> flip_count df k (d - k) \<le> f"
    and zero: "f = 0 \<Longrightarrow> a = 0 \<and> b = 0"
    and pos: "0 < f \<Longrightarrow> 0 \<le> a \<and> a \<le> d \<and> b = d - a \<and> flip_count df a (d - a) = f"
    and least: "\<And>k. 0 < f \<Longrightarrow> 0 \<le> k \<Longrightarrow> k < a \<Longrightarrow> flip_count df k (d - k) < f"
    unfolding best_inv_def bs by simp_all
  have bound: "\<forall>k\<in>{0..d}. flip_count df k (d - k) \<le> f"
    using ub by simp
  show ?thesis
  proof (cases "\<exists>k\<in>{0..d}. 0 < flip_count df k (d - k)")
    case True
    then obtain k where "k \<in> {0..d}" "0 < flip_count df k (d - k)" by blast
    with bound have fpos: "0 < f" by force
    from pos [OF fpos] have a: "0 \<le> a" "a \<le> d" "b = d - a" "flip_count df a (d - a) = f"
      by simp_all
    have "Max ((\<lambda>k. flip_count df k (d - k)) ` {0..d}) = f"
    proof (rule Max_eqI)
      show "finite ((\<lambda>k. flip_count df k (d - k)) ` {0..d})" by simp
      show "y \<le> f" if "y \<in> (\<lambda>k. flip_count df k (d - k)) ` {0..d}" for y
        using that bound by auto
      have "a \<in> {0..d}" using a by simp
      then show "f \<in> (\<lambda>k. flip_count df k (d - k)) ` {0..d}"
        using a(4) by (metis imageI)
    qed
    moreover have "\<forall>k\<in>{0..d}. flip_count df k (d - k) = f \<longrightarrow> a \<le> k"
    proof (intro ballI impI)
      fix k assume k: "k \<in> {0..d}" and eq: "flip_count df k (d - k) = f"
      show "a \<le> k"
      proof (rule ccontr)
        assume "\<not> a \<le> k"
        then have "k < a" by simp
        from least [OF fpos _ this] k have "flip_count df k (d - k) < f" by simp
        with eq show False by simp
      qed
    qed
    ultimately show ?thesis
      using True bound a by (simp add: bs)
  next
    case False
    have "f = 0"
    proof (rule ccontr)
      assume "f \<noteq> 0"
      then have "0 < f" by simp
      from pos [OF this] have "a \<in> {0..d}" "0 < flip_count df a (d - a)"
        using \<open>0 < f\<close> by simp_all
      with False show False by blast
    qed
    with zero False bound show ?thesis by (simp add: bs)
  qed
qed

lemma upto_0_1: "[0..1] = [0, 1::int]"
  by (simp add: upto.simps)

lemma upto_0_2: "[0..2] = [0, 1, 2::int]"
  by (simp add: upto.simps)

text \<open>
  On a record set without a loss no split flips anything: \<open>best_split\<close> returns the deltas
  \<open>(0, 0)\<close> of its initial value, which do not sum to \<open>d = 1\<close>.
\<close>

theorem best_split_counterexample:
  "fst (snd (best_split [win31] 1)) + snd (snd (best_split [win31] 1)) \<noteq> 1"
  by (simp add: best_split_def best_step_def flip_count_def flipped_def flip_mask_def win31_def upto_0_1)

lemma best_split_loss23: "best_split [loss23, win31] 2 = (1, 0, 2)"
  by (simp add: best_split_def best_step_def flip_count_def flipped_def flip_mask_def
      gf_adj_def ga_adj_def win31_def loss23_def upto_0_2)

text \<open>
  The three splits of \<open>d = 2\<close> flip the one loss 2-3 alike; the tie goes to the smallest
  \<open>k\<close>, the split \<open>(0, 2)\<close>.
\<close>

theorem best_split_argmax_witness:
  "(1::int) \<le> 2 \<and> (\<exists>k\<in>{0..2}. 0 < flip_count [loss23, win31] k (2 - k)) \<and>
   flip_count [loss23, win31] 0 2 = 1 \<and> flip_count [loss23, win31] 1 1 = 1 \<and>
   flip_count [loss23, win31] 2 0 = 1 \<and>
   fst (best_split [loss23, win31] 2) = Max ((\<lambda>k. flip_count [loss23, win31] k (2 - k)) ` {0..2}) \<and>
   best_split [loss23, win31] 2 = (1, 0, 2)"
proof -
  have h: "(1::int) \<le> 2" by simp
  have c0: "flip_count [loss23, win31] 0 2 = 1"
    and c1: "flip_count [loss23, win31] 1 1 = 1"
    and c2: "flip_count [loss23, win31] 2 0 = 1"
    by (simp_all add: flip_count_def flipped_def flip_mask_def gf_adj_def ga_adj_def
        win31_def loss23_def)
  have "(0::int) \<in> {0..2}" by simp
  with c0 have ex: "\<exists>k\<in>{0..2}. 0 < flip_count [loss23, win31] k (2 - k)"
    by (intro bexI [of _ 0]) simp_all
  have "fst (best_split [loss23, win31] 2) =
          Max ((\<lambda>k. flip_count [loss23, win31] k (2 - k)) ` {0..2})"
    using best_split_argmax [OF h, of "[loss23, win31]"] unfolding if_P [OF ex] by blast
  with h ex c0 c1 c2 best_split_loss23 show ?thesis by simp
qed






section \<open>Properties of the validator and deduplicator\<close>

lemma filtered_rows:
  "filter (\<lambda>r. contains_letter (opponent r)) (filter goals_in_range (filter (is_game cols)
     (filter (in_window start endd) (map (coerce_row cols) rs))))
   = map (coerce_row cols) (filter (valid_row cols start endd) rs)"
  by (induction rs) (auto simp: valid_row_def passes_filters_def)

lemma drop_duplicates_Nil [simp]: "drop_duplicates key [] = []"
  by (simp add: drop_duplicates_def)

lemma map_cleaned_row:
  "infer_venue_and_clean_opponent cols \<circ> coerce_row cols = cleaned_row cols"
  by (simp add: cleaned_row_def fun_eq_iff)

lemma clean_filter_cases:
  "clean_filter df start endd =
     (let cols = map rename_column (columns df) in
      if 1 < count_list cols ''goals_for'' \<or> 1 < count_list cols ''goals_against'' then Inl TypeError
      else if 1 < count_list cols ''result'' \<or> 1 < count_list cols ''opponent'' then Inl AttributeError
      else if ''date'' \<notin> set cols then Inl (KeyError ''date'')
      else if ''goals_for'' \<notin> set cols then Inl (KeyError ''goals_for'')
      else if ''goals_against'' \<notin> set cols then Inl (KeyError ''goals_against'')
      else if ''opponent'' \<notin> set cols then Inl (KeyError ''opponent'')
      else if filter (valid_row cols start endd) (rows df) = []
        then Inr (df\<lparr>columns := cols, rows := []\<rparr>)
      else if ''result'' \<notin> set cols then Inl (KeyError ''result'')
      else Inr \<lparr>columns = with_venue cols, rows = cleaned_rows cols start endd (rows df)\<rparr>)"
  unfolding clean_filter_def coerce_types_def normalize_columns_def Let_def apply_rows_def
  by (simp add: filtered_rows map_cleaned_row cleaned_rows_def with_venue_def
       del: filter_filter set_map)



lemma clean_filter_rows:
  assumes "clean_filter df start endd = Inr out"
  shows "rows out = cleaned_rows (map rename_column (columns df)) start endd (rows df)"
  using assms unfolding clean_filter_cases Let_def
  by (auto simp: cleaned_rows_def split: if_splits simp del: set_map)





lemma set_drop_duplicates_from:
  "set (drop_duplicates_from key seen rs) \<subseteq> set rs"
  by (induction rs arbitrary: seen) auto

lemma set_drop_duplicates: "set (drop_duplicates key rs) \<subseteq> set rs"
  by (simp add: drop_duplicates_def set_drop_duplicates_from)


lemma set_cleaned_rows:
  "set (cleaned_rows cols start endd rs) \<subseteq> cleaned_row cols ` {r \<in> set rs. valid_row cols start endd r}"
  unfolding cleaned_rows_def using set_drop_duplicates [of dedup_key] by fastforce

lemma coerce_row_fields [simp]:
  "date (coerce_row cols r) = date r"
  "goals_for (coerce_row cols r) = goals_for r"
  "goals_against (coerce_row cols r) = goals_against r"
  "result (coerce_row cols r) =
     (if ''result'' \<in> set cols then str_strip (str_upper (result r)) else result r)"
  "opponent (coerce_row cols r) =
     (if ''opponent'' \<in> set cols then str_strip (collapse_ws (opponent r)) else opponent r)"
  "venue (coerce_row cols r) = (if ''venue'' \<in> set cols then str_title (venue r) else venue r)"
  by (simp_all add: coerce_row_def)

lemma infer_fields [simp]:
  "date (infer_venue_and_clean_opponent cols r) = date r"
  "goals_for (infer_venue_and_clean_opponent cols r) = goals_for r"
  "goals_against (infer_venue_and_clean_opponent cols r) = goals_against r"
  "result (infer_venue_and_clean_opponent cols r) = result r"
  by (simp_all add: infer_venue_and_clean_opponent_def Let_def)


lemma cleaned_row_fields [simp]:
  "date (cleaned_row cols r) = date r"
  "goals_for (cleaned_row cols r) = goals_for r"
  "goals_against (cleaned_row cols r) = goals_against r"
  "result (cleaned_row cols r) = result (coerce_row cols r)"
  by (simp_all add: cleaned_row_def)

lemma valid_row_goals: "valid_row cols start endd r \<Longrightarrow> goals_in_range r"
  by (simp add: valid_row_def passes_filters_def goals_in_range_def)

lemma goals_in_range_iff:
  "goals_in_range r \<longleftrightarrow>
     (\<exists>gf ga. goals_for r = Some gf \<and> goals_against r = Some ga \<and>
        1 \<le> gf \<and> gf \<le> 35 \<and> 1 \<le> ga \<and> ga \<le> 35)"
  by (cases "goals_for r"; cases "goals_against r") (auto simp: goals_in_range_def)

lemma in_window_date: "date r1 = date r2 \<Longrightarrow> in_window start endd r1 = in_window start endd r2"
  by (cases start; cases endd) (simp_all add: in_window_def)


lemma valid_row_cong_key:
  assumes "dedup_key r1 = dedup_key r2"
  shows "valid_row cols start endd r1 = valid_row cols start endd r2"
proof -
  from assms have eq: "date r1 = date r2" "opponent r1 = opponent r2" "result r1 = result r2"
    "goals_for r1 = goals_for r2" "goals_against r1 = goals_against r2"
    by (simp_all add: dedup_key_def)
  have "in_window start endd (coerce_row cols r1) = in_window start endd (coerce_row cols r2)"
    by (rule in_window_date) (simp add: eq)
  moreover have "is_game cols (coerce_row cols r1) = is_game cols (coerce_row cols r2)"
    by (simp add: is_game_def eq)
  moreover have "goals_in_range (coerce_row cols r1) = goals_in_range (coerce_row cols r2)"
    by (simp add: goals_in_range_def eq)
  moreover have "opponent (coerce_row cols r1) = opponent (coerce_row cols r2)"
    by (simp add: eq)
  ultimately show ?thesis
    by (simp add: valid_row_def passes_filters_def)
qed







lemma set_ocr_main:
  assumes "ocr_and_parse_main to_datetime start endd cands = Inr out"
  shows "set out \<subseteq> (\<lambda>c. c\<lparr>date := to_datetime (date_raw c)\<rparr>) `
           {c \<in> set cands. goals_in_range c}"
proof -
  have "set out \<subseteq> {c \<in> (\<lambda>c. c\<lparr>date := to_datetime (date_raw c)\<rparr>) ` set cands.
           goals_in_range c}"
    using assms unfolding ocr_and_parse_main_def Let_def
    by (auto split: if_splits)
  also have "\<dots> \<subseteq> (\<lambda>c. c\<lparr>date := to_datetime (date_raw c)\<rparr>) ` {c \<in> set cands. goals_in_range c}"
    by (auto simp: goals_in_range_def)
  finally show ?thesis .
qed

text \<open>
  Claim C7. In the cleaned output of \<^verbatim>\<open>clean_filter\<close> and in the output of the extraction
  pipeline, both goal fields of every record are integers in the inclusive range
  \<open>[1, 35]\<close>, and they are the goal fields of a record of the input: a record with a goal
  field out of range is dropped, none is clamped.
\<close>

theorem goals_within_range:
  "(clean_filter df start endd = Inr out \<longrightarrow>
      (\<forall>r\<in>set (rows out).
         (\<exists>gf ga. goals_for r = Some gf \<and> goals_against r = Some ga \<and>
            1 \<le> gf \<and> gf \<le> 35 \<and> 1 \<le> ga \<and> ga \<le> 35) \<and>
         (\<exists>r0\<in>set (rows df). goals_for r0 = goals_for r \<and> goals_against r0 = goals_against r))) \<and>
   (ocr_and_parse_main to_datetime start endd cands = Inr out' \<longrightarrow>
      (\<forall>c\<in>set out'.
         (\<exists>gf ga. goals_for c = Some gf \<and> goals_against c = Some ga \<and>
            1 \<le> gf \<and> gf \<le> 35 \<and> 1 \<le> ga \<and> ga \<le> 35) \<and>
         (\<exists>c0\<in>set cands. goals_for c0 = goals_for c \<and> goals_against c0 = goals_against c)))"
proof (intro conjI impI ballI)
  fix r
  assume cf: "clean_filter df start endd = Inr out" and r: "r \<in> set (rows out)"
  let ?cols = "map rename_column (columns df)"
  from clean_filter_rows [OF cf] r have "r \<in> set (cleaned_rows ?cols start endd (rows df))"
    by simp
  with set_cleaned_rows [of ?cols start endd "rows df"]
  obtain r0 where r0: "r0 \<in> set (rows df)" "valid_row ?cols start endd r0" "r = cleaned_row ?cols r0"
    by auto
  from valid_row_goals [OF r0(2)] have "goals_in_range r0" .
  then have "goals_in_range r" by (simp add: goals_in_range_def r0(3))
  then show "\<exists>gf ga. goals_for r = Some gf \<and> goals_against r = Some ga \<and>
            1 \<le> gf \<and> gf \<le> 35 \<and> 1 \<le> ga \<and> ga \<le> 35"
    by (simp only: goals_in_range_iff)
  show "\<exists>r0\<in>set (rows df). goals_for r0 = goals_for r \<and> goals_against r0 = goals_against r"
    using r0 by (intro bexI [of _ r0]) simp_all
next
  fix c
  assume om: "ocr_and_parse_main to_datetime start endd cands = Inr out'" and c: "c \<in> set out'"
  from set_ocr_main [OF om] c
  obtain c0 where c0: "c0 \<in> set cands" "goals_in_range c0" "c = c0\<lparr>date := to_datetime (date_raw c0)\<rparr>"
    by auto
  from c0(2) have "goals_in_range c" by (simp add: goals_in_range_def c0(3))
  then show "\<exists>gf ga. goals_for c = Some gf \<and> goals_against c = Some ga \<and>
            1 \<le> gf \<and> gf \<le> 35 \<and> 1 \<le> ga \<and> ga \<le> 35"
    by (simp only: goals_in_range_iff)
  show "\<exists>c0\<in>set cands. goals_for c0 = goals_for c \<and> goals_against c0 = goals_against c"
    using c0 by (intro bexI [of _ c0]) simp_all
qed

lemma clean_mixed_scores:
  "clean_filter mixed_scores None None = Inr \<lparr>columns = five_columns @ [''venue''], rows = [hawks_cleaned]\<rparr>"
  by code_simp

lemma extract_mixed_scores:
  "ocr_and_parse_main to_datetime_2024 None None [cand_zero, cand_line] =
     Inr [cand_line\<lparr>date := Some 20241001\<rparr>]"
  by code_simp

text \<open>
  The records 36-2 and 3-0 are dropped by both pipelines, the record 2-3 stays with its
  scores.
\<close>

theorem goals_within_range_witness:
  "clean_filter mixed_scores None None =
     Inr \<lparr>columns = five_columns @ [''venue''], rows = [hawks_cleaned]\<rparr> \<and>
   ocr_and_parse_main to_datetime_2024 None None [cand_zero, cand_line] =
     Inr [cand_line\<lparr>date := Some 20241001\<rparr>] \<and>
   (\<exists>gf ga. goals_for hawks_cleaned = Some gf \<and> goals_against hawks_cleaned = Some ga \<and>
      1 \<le> gf \<and> gf \<le> 35 \<and> 1 \<le> ga \<and> ga \<le> 35) \<and>
   (\<exists>gf ga. goals_for (cand_line\<lparr>date := Some 20241001\<rparr>) = Some gf \<and>
      goals_against (cand_line\<lparr>date := Some 20241001\<rparr>) = Some ga \<and>
      1 \<le> gf \<and> gf \<le> 35 \<and> 1 \<le> ga \<and> ga \<le> 35)"
proof -
  note w = goals_within_range [of mixed_scores None None
      "\<lparr>columns = five_columns @ [''venue''], rows = [hawks_cleaned]\<rparr>"
      to_datetime_2024 "[cand_zero, cand_line]" "[cand_line\<lparr>date := Some 20241001\<rparr>]"]
  from w clean_mixed_scores
  have "\<forall>r\<in>set (rows \<lparr>columns = five_columns @ [''venue''], rows = [hawks_cleaned]\<rparr>).
         (\<exists>gf ga. goals_for r = Some gf \<and> goals_against r = Some ga \<and>
            1 \<le> gf \<and> gf \<le> 35 \<and> 1 \<le> ga \<and> ga \<le> 35) \<and>
         (\<exists>r0\<in>set (rows mixed_scores). goals_for r0 = goals_for r \<and> goals_against r0 = goals_against r)"
    by blast
  then have a: "\<exists>gf ga. goals_for hawks_cleaned = Some gf \<and> goals_against hawks_cleaned = Some ga \<and>
      1 \<le> gf \<and> gf \<le> 35 \<and> 1 \<le> ga \<and> ga \<le> 35"
    by simp
  from w extract_mixed_scores
  have "\<forall>c\<in>set [cand_line\<lparr>date := Some 20241001\<rparr>].
         (\<exists>gf ga. goals_for c = Some gf \<and> goals_against c = Some ga \<and>
            1 \<le> gf \<and> gf \<le> 35 \<and> 1 \<le> ga \<and> ga \<le> 35) \<and>
         (\<exists>c0\<in>set [cand_zero, cand_line]. goals_for c0 = goals_for c \<and> goals_against c0 = goals_against c)"
    by blast
  then have b: "\<exists>gf ga. goals_for (cand_line\<lparr>date := Some 20241001\<rparr>) = Some gf \<and>
      goals_against (cand_line\<lparr>date := Some 20241001\<rparr>) = Some ga \<and>
      1 \<le> gf \<and> gf \<le> 35 \<and> 1 \<le> ga \<and> ga \<le> 35"
    by simp
  from a b clean_mixed_scores extract_mixed_scores show ?thesis by (intro conjI)
qed








section \<open>Properties of the score pattern\<close>

lemma digits12_sound:
  "(g, r) \<in> set (digits12 s) \<Longrightarrow>
     s = g @ r \<and> list_all is_digit g \<and> (length g = 1 \<or> length g = 2)"
  by (induction s rule: digits12.induct) (auto split: if_splits)

lemma spaces_star_sound:
  "r \<in> set (spaces_star s) \<Longrightarrow> \<exists>ws. s = ws @ r \<and> list_all is_space ws"
proof (induction s)
  case Nil
  then show ?case by simp
next
  case (Cons c s)
  show ?case
  proof (cases "r = c # s")
    case True
    then show ?thesis by simp
  next
    case False
    with Cons.prems have c: "is_space c" and "r \<in> set (spaces_star s)"
      by (auto split: if_splits)
    with Cons.IH obtain ws where "s = ws @ r" "list_all is_space ws" by blast
    with c have "c # s = (c # ws) @ r \<and> list_all is_space (c # ws)" by simp
    then show ?thesis by blast
  qed
qed

lemma literal_sound: "r \<in> set (literal c s) \<Longrightarrow> s = c # r"
  by (cases s) (auto split: if_splits)

lemma not_space_hyphen_slash: "\<not> is_space CHR ''-''" "\<not> is_space CHR ''/''"
  by (simp_all add: is_space_def)

lemma hyphen_or_slash_digit_space:
  "is_space c \<Longrightarrow> \<not> hyphen_or_slash_digit (c # r)"
  using not_space_hyphen_slash by (cases r) auto

lemma lookahead_body_iff: "lookahead_body s = followed_by_continuation s"
  unfolding lookahead_body_def followed_by_continuation_def
  by (induction s) (simp_all add: hyphen_or_slash_digit_space)

lemma score_at_sound:
  assumes "(g1, g2, rest) \<in> set (score_at s)"
  shows "\<exists>ws1 ws2. s = g1 @ ws1 @ ''-'' @ ws2 @ g2 @ rest \<and>
           list_all is_space ws1 \<and> list_all is_space ws2 \<and>
           list_all is_digit g1 \<and> (length g1 = 1 \<or> length g1 = 2) \<and>
           list_all is_digit g2 \<and> (length g2 = 1 \<or> length g2 = 2) \<and>
           \<not> followed_by_continuation rest"
proof -
  from assms obtain r1 r2 r3 r4 where
    d1: "(g1, r1) \<in> set (digits12 s)" and s1: "r2 \<in> set (spaces_star r1)"
    and l: "r3 \<in> set (literal CHR ''-'' r2)" and s2: "r4 \<in> set (spaces_star r3)"
    and d2: "(g2, rest) \<in> set (digits12 r4)" and la: "\<not> lookahead_body rest"
    unfolding score_at_def by (auto split: if_splits)
  from spaces_star_sound [OF s1] obtain ws1 where ws1: "r1 = ws1 @ r2" "list_all is_space ws1"
    by blast
  from spaces_star_sound [OF s2] obtain ws2 where ws2: "r3 = ws2 @ r4" "list_all is_space ws2"
    by blast
  from digits12_sound [OF d1] have g1: "s = g1 @ r1" "list_all is_digit g1"
    "length g1 = 1 \<or> length g1 = 2" by simp_all
  from digits12_sound [OF d2] have g2: "r4 = g2 @ rest" "list_all is_digit g2"
    "length g2 = 1 \<or> length g2 = 2" by simp_all
  from literal_sound [OF l] have r2: "r2 = CHR ''-'' # r3" .
  have "s = g1 @ ws1 @ ''-'' @ ws2 @ g2 @ rest"
    by (simp add: g1(1) ws1(1) r2 ws2(1) g2(1))
  with ws1(2) ws2(2) g1(2,3) g2(2,3) la show ?thesis
    unfolding lookahead_body_iff by blast
qed

lemma score_at_rest_shorter:
  assumes "(g1, g2, rest) \<in> set (score_at s)"
  shows "length rest < length s"
proof -
  from score_at_sound [OF assms] obtain ws1 ws2 where
    "s = g1 @ ws1 @ ''-'' @ ws2 @ g2 @ rest" by blast
  then have "length s = length g1 + length ws1 + 1 + length ws2 + length g2 + length rest"
    by simp
  then show ?thesis by simp
qed

lemma rx_score_from_sound:
  assumes "rx_score_from prev pos s = Some m"
  shows "\<exists>k rest. k \<le> length s \<and> m_start m = pos + k \<and>
           (group1 m, group2 m, rest) \<in> set (score_at (drop k s)) \<and>
           m_end m = pos + (length s - length rest) \<and>
           (if k = 0 then \<not> prev_is_digit prev else \<not> is_digit (s ! (k - 1)))"
  using assms
proof (induction s arbitrary: prev pos)
  case Nil
  then show ?case by simp
next
  case (Cons c r)
  let ?alts = "if prev_is_digit prev then [] else score_at (c # r)"
  show ?case
  proof (cases ?alts)
    case Nil
    with Cons.prems have "rx_score_from (Some c) (Suc pos) r = Some m"
      by (simp add: prev_is_digit_def)
    from Cons.IH [OF this] obtain k rest where k: "k \<le> length r" "m_start m = Suc pos + k"
      "(group1 m, group2 m, rest) \<in> set (score_at (drop k r))"
      "m_end m = Suc pos + (length r - length rest)"
      "if k = 0 then \<not> prev_is_digit (Some c) else \<not> is_digit (r ! (k - 1))"
      by blast
    from score_at_rest_shorter [OF k(3)] have "length rest < length r" by simp
    then have e: "m_end m = pos + (length (c # r) - length rest)"
      using k(4) by simp
    have "if Suc k = 0 then \<not> prev_is_digit prev else \<not> is_digit ((c # r) ! (Suc k - 1))"
      using k(5) by (cases k) (simp_all add: prev_is_digit_def)
    with k(1,2,3) e have "Suc k \<le> length (c # r) \<and> m_start m = pos + Suc k \<and>
           (group1 m, group2 m, rest) \<in> set (score_at (drop (Suc k) (c # r))) \<and>
           m_end m = pos + (length (c # r) - length rest) \<and>
           (if Suc k = 0 then \<not> prev_is_digit prev else \<not> is_digit ((c # r) ! (Suc k - 1)))"
      by simp
    then show ?thesis by blast
  next
    case (Cons a as)
    obtain g1 g2 rest where a: "a = (g1, g2, rest)" by (cases a) auto
    from Cons have np: "\<not> prev_is_digit prev" and sa: "score_at (c # r) = (g1, g2, rest) # as"
      by (auto simp: a split: if_splits)
    from Cons.prems sa np have m: "m = \<lparr>m_start = pos, m_end = pos + (length (c # r) - length rest),
                group1 = g1, group2 = g2\<rparr>"
      by (simp add: prev_is_digit_def)
    have "(g1, g2, rest) \<in> set (score_at (c # r))" by (simp add: sa)
    with m np have "0 \<le> length (c # r) \<and> m_start m = pos + 0 \<and>
           (group1 m, group2 m, rest) \<in> set (score_at (drop 0 (c # r))) \<and>
           m_end m = pos + (length (c # r) - length rest) \<and>
           (if (0::nat) = 0 then \<not> prev_is_digit prev else \<not> is_digit ((c # r) ! (0 - 1)))"
      by simp
    then show ?thesis by blast
  qed
qed

lemma take_length_append: "take (length xs) (xs @ ys) = xs"
  by simp

lemma drop_length_append: "drop (length xs) (xs @ ys) = ys"
  by simp

text \<open>
  Claim C8, as the code has it. A match of the score pattern is two groups of one or two
  digits with a hyphen between them and optional white space around the hyphen; in every
  text, a match is not preceded by a digit and is not followed by optional white space, a
  hyphen or a slash, and a digit.
\<close>

theorem rx_score_match_guards:
  assumes "rx_score_search text = Some m"
  shows "m_start m < m_end m \<and> m_end m \<le> length text \<and>
         (\<exists>ws1 ws2. take (m_end m - m_start m) (drop (m_start m) text) =
                      group1 m @ ws1 @ ''-'' @ ws2 @ group2 m \<and>
                    list_all is_space ws1 \<and> list_all is_space ws2) \<and>
         list_all is_digit (group1 m) \<and> (length (group1 m) = 1 \<or> length (group1 m) = 2) \<and>
         list_all is_digit (group2 m) \<and> (length (group2 m) = 1 \<or> length (group2 m) = 2) \<and>
         (m_start m = 0 \<or> \<not> is_digit (text ! (m_start m - 1))) \<and>
         \<not> followed_by_continuation (drop (m_end m) text)"
proof -
  from assms have "rx_score_from None 0 text = Some m"
    by (simp add: rx_score_search_def)
  from rx_score_from_sound [OF this] obtain k rest where
    k: "k \<le> length text" "m_start m = k"
    and sa: "(group1 m, group2 m, rest) \<in> set (score_at (drop k text))"
    and e: "m_end m = length text - length rest"
    and lb: "if k = 0 then \<not> prev_is_digit None else \<not> is_digit (text ! (k - 1))"
    by auto
  from score_at_sound [OF sa] obtain ws1 ws2 where
    dec: "drop k text = group1 m @ ws1 @ ''-'' @ ws2 @ group2 m @ rest"
    and ws: "list_all is_space ws1" "list_all is_space ws2"
    and g: "list_all is_digit (group1 m)" "length (group1 m) = 1 \<or> length (group1 m) = 2"
      "list_all is_digit (group2 m)" "length (group2 m) = 1 \<or> length (group2 m) = 2"
    and nf: "\<not> followed_by_continuation rest"
    by blast
  let ?mid = "group1 m @ ws1 @ ''-'' @ ws2 @ group2 m"
  from dec have dec': "drop k text = ?mid @ rest" by simp
  have "length (drop k text) = length (?mid @ rest)"
    by (simp only: dec')
  then have len: "length text - k = length ?mid + length rest"
    by (simp only: length_drop length_append)
  with k(1) have lt: "length text = k + length ?mid + length rest" by simp
  then have e': "m_end m = k + length ?mid" using e by simp
  have "0 < length ?mid" by simp
  with e' k(2) have a: "m_start m < m_end m" by simp
  from e' lt have b: "m_end m \<le> length text" by simp
  have "take (length ?mid) (drop k text) = ?mid"
    by (simp only: dec' take_length_append drop_length_append)
  then have c: "take (m_end m - m_start m) (drop (m_start m) text) = ?mid"
    using e' k(2) by simp
  have "drop (length ?mid) (drop k text) = rest"
    by (simp only: dec' take_length_append drop_length_append)
  then have "drop (m_end m) text = rest"
    using e' by (simp add: add.commute)
  with nf have d: "\<not> followed_by_continuation (drop (m_end m) text)" by simp
  from lb k(2) have f: "m_start m = 0 \<or> \<not> is_digit (text ! (m_start m - 1))"
    by (cases "k = 0") simp_all
  from c ws have "\<exists>ws1 ws2. take (m_end m - m_start m) (drop (m_start m) text) =
                      group1 m @ ws1 @ ''-'' @ ws2 @ group2 m \<and>
                    list_all is_space ws1 \<and> list_all is_space ws2"
    by blast
  with a b g f d show ?thesis by (intro conjI)
qed

text \<open>
  A match inside a date-like sequence of three numbers: the last two numbers of 1-2-3,
  and in 10-01-2024 the first number with the first digit of the second, which the
  backtracking of the second group leaves in front of a digit.
\<close>

theorem rx_score_inside_date_counterexample:
  "rx_score_search ''1-2-3'' = Some \<lparr>m_start = 2, m_end = 5, group1 = ''2'', group2 = ''3''\<rparr> \<and>
   rx_score_search ''10-01-2024'' = Some \<lparr>m_start = 0, m_end = 4, group1 = ''10'', group2 = ''0''\<rparr>"
  by code_simp

lemma rx_score_schedule_line:
  "rx_score_search ''Hawks L 2-3'' =
     Some \<lparr>m_start = 8, m_end = 11, group1 = ''2'', group2 = ''3''\<rparr>"
  by code_simp

text \<open>
  The score at the end of a schedule line: the match 2-3 follows a space and ends the
  line.
\<close>

theorem rx_score_match_guards_witness:
  "rx_score_search ''Hawks L 2-3'' =
     Some \<lparr>m_start = 8, m_end = 11, group1 = ''2'', group2 = ''3''\<rparr> \<and>
   \<not> is_digit (''Hawks L 2-3'' ! 7) \<and>
   \<not> followed_by_continuation (drop 11 ''Hawks L 2-3'')"
proof -
  from rx_score_match_guards [OF rx_score_schedule_line]
  have "\<not> followed_by_continuation (drop 11 ''Hawks L 2-3'')"
    and "(8::nat) = 0 \<or> \<not> is_digit (''Hawks L 2-3'' ! (8 - 1))"
    by simp_all
  then show ?thesis
    using rx_score_schedule_line by simp
qed

section \<open>Properties of the text normalizer\<close>

lemma single_spaced_weaken: "single_spaced True s \<Longrightarrow> single_spaced False s"
  by (cases s) (auto split: if_splits)

lemma single_spaced_collapse: "single_spaced prev (cp_collapse_from prev s)"
  by (induction s arbitrary: prev) (simp_all add: cp_is_space_def)

lemma single_spaced_prefix: "single_spaced prev (xs @ ys) \<Longrightarrow> single_spaced prev xs"
  by (induction xs arbitrary: prev) (auto split: if_splits)

lemma single_spaced_dropWhile:
  "single_spaced prev s \<Longrightarrow> single_spaced False (dropWhile cp_is_space s)"
proof (induction s arbitrary: prev)
  case Nil
  then show ?case by simp
next
  case (Cons c cs)
  show ?case
  proof (cases "cp_is_space c")
    case True
    with Cons.prems have "single_spaced True cs" by simp
    from Cons.IH [OF this] True show ?thesis by simp
  next
    case False
    with Cons.prems show ?thesis by simp
  qed
qed

lemma strip_prefix: "\<exists>ys. s = rev (dropWhile P (rev s)) @ ys"
proof -
  have "rev (dropWhile P (rev s)) @ rev (takeWhile P (rev s)) =
        rev (takeWhile P (rev s) @ dropWhile P (rev s))"
    by (simp only: rev_append)
  also have "\<dots> = rev (rev s)"
    by (simp only: takeWhile_dropWhile_id)
  also have "\<dots> = s" by simp
  finally have "s = rev (dropWhile P (rev s)) @ rev (takeWhile P (rev s))" by (rule sym)
  then show ?thesis by (rule exI)
qed

lemma single_spaced_strip:
  assumes "single_spaced prev s"
  shows "single_spaced False (cp_strip s)"
proof -
  let ?t = "dropWhile cp_is_space s"
  from assms have t: "single_spaced False ?t" by (rule single_spaced_dropWhile)
  from strip_prefix [of ?t cp_is_space] obtain ys where "?t = cp_strip s @ ys"
    unfolding cp_strip_def by blast
  with t have "single_spaced False (cp_strip s @ ys)" by simp
  then show ?thesis by (rule single_spaced_prefix)
qed

lemma stripped_strip: "stripped (cp_strip s)"
proof (cases "cp_strip s = []")
  case True
  then show ?thesis by (simp add: stripped_def)
next
  case False
  let ?t = "dropWhile cp_is_space s"
  let ?u = "dropWhile cp_is_space (rev ?t)"
  have u: "cp_strip s = rev ?u" by (simp add: cp_strip_def)
  with False have une: "?u \<noteq> []" by simp
  then have "\<not> cp_is_space (hd ?u)" by (rule hd_dropWhile)
  then have l: "\<not> cp_is_space (last (cp_strip s))"
    using une by (simp add: u last_rev)
  from strip_prefix [of ?t cp_is_space] obtain ys where ys: "?t = cp_strip s @ ys"
    unfolding cp_strip_def by blast
  with False have tne: "?t \<noteq> []" by auto
  then have "\<not> cp_is_space (hd ?t)" by (rule hd_dropWhile)
  moreover from ys False have "hd ?t = hd (cp_strip s)"
    by (metis hd_append2)
  ultimately have "\<not> cp_is_space (hd (cp_strip s))" by simp
  with l show ?thesis by (simp add: stripped_def)
qed

lemma set_strip: "set (cp_strip s) \<subseteq> set s"
proof -
  have "set (cp_strip s) \<subseteq> set (dropWhile cp_is_space s)"
    unfolding cp_strip_def using set_dropWhileD [of _ cp_is_space "rev (dropWhile cp_is_space s)"]
    by auto
  also have "\<dots> \<subseteq> set s"
    using set_dropWhileD [of _ cp_is_space s] by auto
  finally show ?thesis .
qed

lemma set_collapse: "set (cp_collapse_from prev s) \<subseteq> insert 0x20 (set s)"
  by (induction s arbitrary: prev) auto

lemma single_spaced_spaces: "single_spaced prev s \<Longrightarrow> c \<in> set s \<Longrightarrow> cp_is_space c \<Longrightarrow> c = 0x20"
  by (induction s arbitrary: prev) (auto split: if_splits)

lemma single_spaced_adjacent:
  "single_spaced prev s \<Longrightarrow> Suc i < length s \<Longrightarrow> \<not> (s ! i = 0x20 \<and> s ! Suc i = 0x20)"
proof (induction s arbitrary: prev i)
  case Nil
  then show ?case by simp
next
  case (Cons c cs)
  have sp: "cp_is_space 0x20" by (simp add: cp_is_space_def)
  show ?case
  proof (cases i)
    case 0
    with Cons.prems obtain d ds where cs: "cs = d # ds" by (cases cs) auto
    show ?thesis
    proof
      assume "(c # cs) ! i = 0x20 \<and> (c # cs) ! Suc i = 0x20"
      with 0 cs have "c = 0x20" "d = 0x20" by simp_all
      with Cons.prems(1) cs sp show False by simp
    qed
  next
    case (Suc j)
    from Cons.prems(1) have "single_spaced True cs \<or> single_spaced False cs"
      by (auto split: if_splits)
    then have "single_spaced False cs" using single_spaced_weaken by blast
    from Cons.IH [OF this, of j] Cons.prems(2) Suc show ?thesis by simp
  qed
qed

lemma before_nfkc_map:
  "before_nfkc s =
     map (\<lambda>c. if c = 0xA0 \<or> c = 0x2007 \<or> c = 0x2009 then 0x20
              else if c = 0x2013 \<or> c = 0x2014 then 0x2D else c) s"
  by (simp add: before_nfkc_def replace_cp_def)

lemma clean_eq:
  "clean nfkc s =
     cp_strip (cp_collapse_from False (nfkc (before_nfkc (case s of None \<Rightarrow> [] | Some t \<Rightarrow> t))))"
  by (simp add: clean_def before_nfkc_def Let_def)

lemma cp_strip_Nil: "cp_strip [] = []"
  by (simp add: cp_strip_def)

lemma before_nfkc_removes:
  "c \<in> set (before_nfkc t) \<Longrightarrow>
     c \<noteq> 0xA0 \<and> c \<noteq> 0x2007 \<and> c \<noteq> 0x2009 \<and> c \<noteq> 0x2013 \<and> c \<noteq> 0x2014"
  unfolding before_nfkc_map by (auto split: if_splits)

lemma set_clean: "set (clean nfkc s) \<subseteq>
    insert 0x20 (set (nfkc (before_nfkc (case s of None \<Rightarrow> [] | Some t \<Rightarrow> t))))"
  unfolding clean_eq using set_strip set_collapse by (rule subset_trans)

text \<open>
  Claim C9, as the code has it. \<^verbatim>\<open>clean\<close> is a total function of its input. Its result has
  no white space at its ends, and every white space inside it is a single ordinary space.
  It is the stripped and collapsed NFKC normalization of the input in which every no-break
  space, figure space and thin space has become a space and every en dash and em dash a
  hyphen; no other code point is replaced before the normalization, the minus sign U+2212
  is not. A null or an empty input gives the empty string (NFKC maps the empty string to
  itself), and on an input that NFKC leaves as it is after the replacements the result has
  none of the five replaced code points.
\<close>

theorem clean_normalizes:
  "stripped (clean nfkc s) \<and> single_spaced False (clean nfkc s) \<and>
   (\<forall>c\<in>set (clean nfkc s). cp_is_space c \<longrightarrow> c = 0x20) \<and>
   (\<forall>i. Suc i < length (clean nfkc s) \<longrightarrow>
        \<not> (clean nfkc s ! i = 0x20 \<and> clean nfkc s ! Suc i = 0x20)) \<and>
   clean nfkc s =
     cp_strip (cp_collapse_from False (nfkc
       (map (\<lambda>c. if c = 0xA0 \<or> c = 0x2007 \<or> c = 0x2009 then 0x20
                 else if c = 0x2013 \<or> c = 0x2014 then 0x2D else c)
          (case s of None \<Rightarrow> [] | Some t \<Rightarrow> t)))) \<and>
   (nfkc [] = [] \<longrightarrow> clean nfkc None = [] \<and> clean nfkc (Some []) = []) \<and>
   (nfkc (before_nfkc t) = before_nfkc t \<longrightarrow>
      (\<forall>c\<in>set (clean nfkc (Some t)).
         c \<noteq> 0xA0 \<and> c \<noteq> 0x2007 \<and> c \<noteq> 0x2009 \<and> c \<noteq> 0x2013 \<and> c \<noteq> 0x2014))"
proof -
  have ss: "single_spaced False (clean nfkc s)"
    unfolding clean_eq using single_spaced_collapse by (rule single_spaced_strip)
  have st: "stripped (clean nfkc s)"
    unfolding clean_eq by (rule stripped_strip)
  have sp: "\<forall>c\<in>set (clean nfkc s). cp_is_space c \<longrightarrow> c = 0x20"
    using single_spaced_spaces [OF ss] by blast
  have adj: "\<forall>i. Suc i < length (clean nfkc s) \<longrightarrow>
        \<not> (clean nfkc s ! i = 0x20 \<and> clean nfkc s ! Suc i = 0x20)"
    using single_spaced_adjacent [OF ss] by blast
  have eq: "clean nfkc s =
     cp_strip (cp_collapse_from False (nfkc
       (map (\<lambda>c. if c = 0xA0 \<or> c = 0x2007 \<or> c = 0x2009 then 0x20
                 else if c = 0x2013 \<or> c = 0x2014 then 0x2D else c)
          (case s of None \<Rightarrow> [] | Some t \<Rightarrow> t))))"
    unfolding clean_eq before_nfkc_map by (rule refl)
  have empty: "clean nfkc None = [] \<and> clean nfkc (Some []) = []" if "nfkc [] = []"
    unfolding clean_eq using that by (simp add: before_nfkc_map cp_strip_Nil)
  have none: "c \<noteq> 0xA0 \<and> c \<noteq> 0x2007 \<and> c \<noteq> 0x2009 \<and> c \<noteq> 0x2013 \<and> c \<noteq> 0x2014"
    if fx: "nfkc (before_nfkc t) = before_nfkc t" and c: "c \<in> set (clean nfkc (Some t))" for c
  proof -
    from set_clean [of nfkc "Some t"] c have "c = 0x20 \<or> c \<in> set (before_nfkc t)"
      by (auto simp: fx)
    then show ?thesis
    proof
      assume "c = 0x20"
      then show ?thesis by simp
    next
      assume "c \<in> set (before_nfkc t)"
      then show ?thesis by (rule before_nfkc_removes)
    qed
  qed
  have e': "nfkc [] = [] \<longrightarrow> clean nfkc None = [] \<and> clean nfkc (Some []) = []"
    using empty by (rule impI)
  have n': "nfkc (before_nfkc t) = before_nfkc t \<longrightarrow>
      (\<forall>c\<in>set (clean nfkc (Some t)).
         c \<noteq> 0xA0 \<and> c \<noteq> 0x2007 \<and> c \<noteq> 0x2009 \<and> c \<noteq> 0x2013 \<and> c \<noteq> 0x2014)"
    using none by (intro impI ballI)
  from st ss sp adj eq e' n' show ?thesis by (intro conjI)
qed

text \<open>
  The minus sign U+2212 has no decomposition mapping: NFKC leaves it as it is, and so does
  \<^verbatim>\<open>clean\<close>. The result is not the plain hyphen U+002D.
\<close>

theorem clean_minus_sign_counterexample:
  "clean (\<lambda>s. s) (Some [0x2212]) = [0x2212]"
  by (simp add: clean_eq before_nfkc_map cp_strip_def cp_is_space_def)

lemma clean_sample_text: "clean (\<lambda>s. s) (Some sample_text) = [0x41, 0x20, 0x2D, 0x42, 0x2D]"
  by (simp add: clean_eq before_nfkc_map cp_strip_def cp_is_space_def sample_text_def)

text \<open>
  A text of ASCII letters, spaces and dashes, on which NFKC is the identity: the no-break
  space and the tab become one space with the space before the en dash, the dashes become
  hyphens, the ends are stripped.
\<close>

theorem clean_normalizes_witness:
  "clean (\<lambda>s. s) (Some sample_text) = [0x41, 0x20, 0x2D, 0x42, 0x2D] \<and>
   stripped [0x41, 0x20, 0x2D, 0x42, 0x2D] \<and>
   single_spaced False [0x41, 0x20, 0x2D, 0x42, 0x2D] \<and>
   (\<lambda>s. s) ([] :: ustring) = [] \<and> clean (\<lambda>s. s) None = [] \<and>
   (\<lambda>s. s) (before_nfkc sample_text) = before_nfkc sample_text \<and>
   0x2013 \<notin> set (clean (\<lambda>s. s) (Some sample_text)) \<and>
   0x2014 \<notin> set (clean (\<lambda>s. s) (Some sample_text))"
proof -
  note w = clean_normalizes [of "\<lambda>s. s" "Some sample_text" sample_text]
  from w have a: "stripped (clean (\<lambda>s. s) (Some sample_text))" by (rule conjunct1)
  from w have b: "single_spaced False (clean (\<lambda>s. s) (Some sample_text))"
    by (elim conjE)
  have i: "(\<lambda>s. s) ([] :: ustring) = []" by simp
  have j: "(\<lambda>s. s) (before_nfkc sample_text) = before_nfkc sample_text" by simp
  from w have "(\<lambda>s. s) ([] :: ustring) = [] \<longrightarrow>
      clean (\<lambda>s. s) None = [] \<and> clean (\<lambda>s. s) (Some []) = []"
    by (elim conjE)
  with i have c: "clean (\<lambda>s. s) None = []" by (elim impE conjE)
  from w have "(\<lambda>s. s) (before_nfkc sample_text) = before_nfkc sample_text \<longrightarrow>
      (\<forall>c\<in>set (clean (\<lambda>s. s) (Some sample_text)).
         c \<noteq> 0xA0 \<and> c \<noteq> 0x2007 \<and> c \<noteq> 0x2009 \<and> c \<noteq> 0x2013 \<and> c \<noteq> 0x2014)"
    by (elim conjE)
  with j have d: "\<forall>c\<in>set (clean (\<lambda>s. s) (Some sample_text)).
         c \<noteq> 0xA0 \<and> c \<noteq> 0x2007 \<and> c \<noteq> 0x2009 \<and> c \<noteq> 0x2013 \<and> c \<noteq> 0x2014"
    by (elim impE)
  from d have e: "0x2013 \<notin> set (clean (\<lambda>s. s) (Some sample_text))"
    and f: "0x2014 \<notin> set (clean (\<lambda>s. s) (Some sample_text))"
    by blast+
  from a have a': "stripped [0x41, 0x20, 0x2D, 0x42, 0x2D]"
    by (simp only: clean_sample_text)
  from b have b': "single_spaced False [0x41, 0x20, 0x2D, 0x42, 0x2D]"
    by (simp only: clean_sample_text)
  from clean_sample_text a' b' i c j e f show ?thesis by (intro conjI)
qed

section \<open>A second run of the validator\<close>

























lemma ws_ok_prefix: "ws_ok prev (xs @ ys) \<Longrightarrow> ws_ok prev xs"
  by (induction xs arbitrary: prev) (auto split: if_splits)




lemma ws_ok_takeWhile: "ws_ok prev s \<Longrightarrow> ws_ok prev (takeWhile P s)"
proof -
  assume "ws_ok prev s"
  then have "ws_ok prev (takeWhile P s @ dropWhile P s)" by simp
  then show ?thesis by (rule ws_ok_prefix)
qed





















lemma rename_column_idem: "rename_column (rename_column c) = rename_column c"
  by (simp add: rename_column_def)

lemma map_rename_idem: "map rename_column (map rename_column cs) = map rename_column cs"
  by (simp add: rename_column_idem)


















end
